theory Spec2Isabelle
  imports Complex_Main "HOL-Library.Multiset"
begin

section \<open>JSON values, exceptions and fetch outcomes\<close>

text \<open>
  A value of TypeScript's \<open>unknown\<close> that comes out of \<open>res.json()\<close>. An object is
  the list of the members of the JSON text, in order; a JavaScript string is a list of
  code units, each below 256 here. The number inside \<open>JNum\<close> is never inspected.
\<close>

datatype json =
    JNull
  | JBool bool
  | JNum int
  | JStr string
  | JArr "json list"
  | JObj "(string \<times> json) list"

text \<open>\<open>typeof v === "object" && v !== null\<close>: true of objects and of arrays.\<close>

definition isRecord :: "json \<Rightarrow> bool" where
  "isRecord v = (case v of JObj _ \<Rightarrow> True | JArr _ \<Rightarrow> True | _ \<Rightarrow> False)"

definition isArray :: "json \<Rightarrow> bool" where
  "isArray v = (case v of JArr _ \<Rightarrow> True | _ \<Rightarrow> False)"

text \<open>
  Reading a named property \<open>v.k\<close>; \<open>None\<close> is \<open>undefined\<close>. When a JSON text repeats a
  key the last member wins. An array has none of the names the program reads
  (\<open>url\<close>, \<open>pathname\<close>, \<open>title\<close>, \<open>content\<close>, \<open>date\<close>, \<open>partner\<close>, \<open>name\<close>, \<open>data\<close>,
  \<open>items\<close>, \<open>publicationUrl\<close>, \<open>authors\<close>, \<open>venue\<close>); the program reads a property
  only after \<open>isRecord\<close>, so the other cases are never evaluated by it.
\<close>

fun getProp :: "json \<Rightarrow> string \<Rightarrow> json option" where
  "getProp (JObj kvs) k = map_of (rev kvs) k"
| "getProp _ k = None"

text \<open>\<open>typeof x === "string" ? x : null\<close>\<close>

definition stringOrNull :: "json option \<Rightarrow> string option" where
  "stringOrNull x = (case x of Some (JStr s) \<Rightarrow> Some s | _ \<Rightarrow> None)"

text \<open>\<open>typeof x === "string" ? x : ""\<close>\<close>

definition stringOrEmpty :: "json option \<Rightarrow> string" where
  "stringOrEmpty x = (case x of Some (JStr s) \<Rightarrow> s | _ \<Rightarrow> [])"

text \<open>
  What can be thrown: a \<open>DOMException\<close> (name, message), any other \<open>Error\<close> (message),
  or a value that is not an \<open>Error\<close>. A \<open>DOMException\<close> is an \<open>instanceof Error\<close>.
\<close>

datatype exn =
    DOMException string string
  | ErrorObj string
  | NonError

definition isAbortError :: "exn \<Rightarrow> bool" where
  "isAbortError e = (case e of DOMException n _ \<Rightarrow> n = ''AbortError'' | _ \<Rightarrow> False)"

text \<open>\<open>e instanceof Error ? e.message : fallback\<close>\<close>

definition messageOr :: "exn \<Rightarrow> string \<Rightarrow> string" where
  "messageOr e fallback =
     (case e of DOMException _ m \<Rightarrow> m | ErrorObj m \<Rightarrow> m | NonError \<Rightarrow> fallback)"

text \<open>
  One \<open>fetch\<close>: the promise rejects, or resolves to a response with a status whose
  \<open>json()\<close> in turn yields a value or rejects.
\<close>

datatype body = Json json | JsonRejects exn

datatype fetch_result = Rejects exn | Resolves nat body

definition ok :: "nat \<Rightarrow> bool" where
  "ok st = (200 \<le> st \<and> st \<le> 299)"

text \<open>The decimal numeral of a status, as the template \<open>`HTTP ${res.status}`\<close> prints it.\<close>

definition digit :: "nat \<Rightarrow> char" where
  "digit d = ''0123456789'' ! d"

fun decimal :: "nat \<Rightarrow> string" where
  "decimal n = (if n < 10 then [digit n] else decimal (n div 10) @ [digit (n mod 10)])"

declare decimal.simps [simp del]

definition httpError :: "nat \<Rightarrow> exn" where
  "httpError st = ErrorObj (''HTTP '' @ decimal st)"

section \<open>projectsController.ts\<close>

record ProjectListItem =
  url :: string
  pathname :: string

text \<open>The partner's fields are \<open>name\<close> and \<open>url\<close> in the source.\<close>

record ProjectPartner =
  name :: string
  url_partner :: string

record ProjectDetail =
  title :: string
  content :: string
  date :: string
  partner :: ProjectPartner

text \<open>An optional field that is absent is \<open>None\<close>.\<close>

record EnrichedItem = ProjectListItem +
  detail :: "ProjectDetail option"
  error :: "string option"

definition toListItem :: "json \<Rightarrow> ProjectListItem option" where
  "toListItem u =
     (if \<not> isRecord u then None
      else case (stringOrNull (getProp u ''url''), stringOrNull (getProp u ''pathname'')) of
             (Some u', Some p) \<Rightarrow>
               if u' = [] \<or> p = [] then None else Some \<lparr>url = u', pathname = p\<rparr>
           | _ \<Rightarrow> None)"

definition toPartner :: "json option \<Rightarrow> ProjectPartner" where
  "toPartner rp =
     (case rp of
        Some r \<Rightarrow>
          if isRecord r
          then \<lparr>name = stringOrEmpty (getProp r ''name''),
                url_partner = stringOrEmpty (getProp r ''url'')\<rparr>
          else \<lparr>name = [], url_partner = []\<rparr>
      | None \<Rightarrow> \<lparr>name = [], url_partner = []\<rparr>)"

definition toDetail :: "json \<Rightarrow> ProjectDetail option" where
  "toDetail u =
     (if \<not> isRecord u then None
      else case stringOrNull (getProp u ''title'') of
             None \<Rightarrow> None
           | Some t \<Rightarrow>
               if t = [] then None
               else Some \<lparr>title = t,
                          content = stringOrEmpty (getProp u ''content''),
                          date = stringOrEmpty (getProp u ''date''),
                          partner = toPartner (getProp u ''partner'')\<rparr>)"

text \<open>The index entries of a list response: a bare array, or the array under \<open>data\<close>,
  or else the array under \<open>items\<close>; anything else is the empty list.\<close>

definition listRaw :: "json \<Rightarrow> json list" where
  "listRaw j =
     (case j of
        JArr xs \<Rightarrow> xs
      | _ \<Rightarrow>
          if isRecord j
          then (case getProp j ''data'' of
                  Some (JArr xs) \<Rightarrow> xs
                | _ \<Rightarrow> (case getProp j ''items'' of Some (JArr xs) \<Rightarrow> xs | _ \<Rightarrow> []))
          else [])"

definition base :: "json \<Rightarrow> ProjectListItem list" where
  "base j = List.map_filter toListItem (listRaw j)"

text \<open>The body of the \<open>try\<close> of one detail fetch: an exception, or what \<open>toDetail\<close> gave.\<close>

definition detailAttempt :: "fetch_result \<Rightarrow> exn + ProjectDetail option" where
  "detailAttempt r =
     (case r of
        Rejects e \<Rightarrow> Inl e
      | Resolves st bd \<Rightarrow>
          if \<not> ok st then Inl (httpError st)
          else (case bd of JsonRejects e \<Rightarrow> Inl e | Json dJson \<Rightarrow> Inr (toDetail dJson)))"

text \<open>The callback of \<open>base.map\<close>: it catches everything, so it always yields an item.\<close>

definition enrich :: "(string \<Rightarrow> fetch_result) \<Rightarrow> ProjectListItem \<Rightarrow> EnrichedItem" where
  "enrich net b =
     (case detailAttempt (net (url b)) of
        Inr None \<Rightarrow>
          \<lparr>url = url b, pathname = pathname b, detail = None,
           error = Some ''Invalid detail schema''\<rparr>
      | Inr (Some d) \<Rightarrow>
          \<lparr>url = url b, pathname = pathname b, detail = Some d, error = None\<rparr>
      | Inl e \<Rightarrow>
          if isAbortError e
          then \<lparr>url = url b, pathname = pathname b, detail = None, error = None\<rparr>
          else \<lparr>url = url b, pathname = pathname b, detail = None,
                error = Some (messageOr e ''Failed to load details'')\<rparr>)"

text \<open>
  \<open>fetchProjects\<close>: \<open>listRes\<close> is the outcome of the fetch of the index, \<open>net\<close> the
  outcome of the detail fetch of each URL. \<open>Inl\<close> is the exception the promise rejects
  with.
\<close>

definition fetchProjects :: "fetch_result \<Rightarrow> (string \<Rightarrow> fetch_result) \<Rightarrow> exn + EnrichedItem list" where
  "fetchProjects listRes net =
     (case listRes of
        Rejects e \<Rightarrow> Inl e
      | Resolves st bd \<Rightarrow>
          if \<not> ok st then Inl (httpError st)
          else (case bd of
                  JsonRejects e \<Rightarrow> Inl e
                | Json j \<Rightarrow> Inr (map (enrich net) (base j))))"

section \<open>PublicationsList.tsx: the publication detail\<close>

text \<open>The fields \<open>title\<close>, \<open>content\<close> and \<open>date\<close> of the source carry the suffix \<open>_pub\<close>.\<close>

record PublicationDetail =
  title_pub :: string
  content_pub :: string
  date_pub :: string
  publicationUrl :: string
  authors :: "string list"
  venue :: string

text \<open>\<open>Array.isArray(u.authors) ? u.authors.filter((a) => typeof a === "string") : []\<close>\<close>

definition toAuthors :: "json option \<Rightarrow> string list" where
  "toAuthors x = (case x of Some (JArr as) \<Rightarrow> [s. JStr s \<leftarrow> as] | _ \<Rightarrow> [])"

definition toDetail_pub :: "json \<Rightarrow> PublicationDetail option" where
  "toDetail_pub u =
     (if \<not> isRecord u then None
      else case stringOrNull (getProp u ''title'') of
             None \<Rightarrow> None
           | Some t \<Rightarrow>
               if t = [] then None
               else Some \<lparr>title_pub = t,
                          content_pub = stringOrEmpty (getProp u ''content''),
                          date_pub = stringOrEmpty (getProp u ''date''),
                          publicationUrl = stringOrEmpty (getProp u ''publicationUrl''),
                          authors = toAuthors (getProp u ''authors''),
                          venue = stringOrEmpty (getProp u ''venue'')\<rparr>)"

section \<open>The projects view: state and initial load\<close>

text \<open>
  The part of the component state the load, the projection and the pagination use.
  The state variable \<open>error\<close> of the source is \<open>error_view\<close> here; \<open>null\<close> is \<open>None\<close>.
\<close>

record ViewState =
  items :: "EnrichedItem list option"
  error_view :: "string option"
  page :: int
  searchQuery :: string

definition initialState :: ViewState where
  "initialState = \<lparr>items = None, error_view = None, page = 1, searchQuery = []\<rparr>"

text \<open>
  The \<open>load\<close> of the mount effect, given what \<open>fetchProjects\<close> settled to:
  \<open>setError(null)\<close> runs before the call is awaited.
\<close>

definition load :: "exn + EnrichedItem list \<Rightarrow> ViewState \<Rightarrow> ViewState" where
  "load settled s =
     (let s1 = s\<lparr>error_view := None\<rparr>
      in case settled of
           Inr enriched \<Rightarrow> s1\<lparr>items := Some enriched\<rparr>
         | Inl e \<Rightarrow>
             if isAbortError e then s1
             else s1\<lparr>error_view := Some (messageOr e ''Failed to load'')\<rparr>)"

definition loadEffect :: "fetch_result \<Rightarrow> (string \<Rightarrow> fetch_result) \<Rightarrow> ViewState \<Rightarrow> ViewState" where
  "loadEffect listRes net s = load (fetchProjects listRes net) s"

section \<open>Strings: trim, lower case, substring\<close>

definition LF :: char where "LF = CHR 0x0A"

definition CR :: char where "CR = CHR 0x0D"

text \<open>White space and line terminators among the code units below 256.\<close>

definition isWhiteSpace :: "char \<Rightarrow> bool" where
  "isWhiteSpace c =
     (c = CHR 0x09 \<or> c = CHR 0x0A \<or> c = CHR 0x0B \<or> c = CHR 0x0C \<or> c = CHR 0x0D
      \<or> c = CHR 0x20 \<or> c = CHR 0xA0)"

definition trim :: "string \<Rightarrow> string" where
  "trim s = rev (dropWhile isWhiteSpace (rev (dropWhile isWhiteSpace s)))"

definition lowerChar :: "char \<Rightarrow> char" where
  "lowerChar c =
     (let n = (of_char c :: nat)
      in if (65 \<le> n \<and> n \<le> 90) \<or> (192 \<le> n \<and> n \<le> 222 \<and> n \<noteq> 215)
         then char_of (n + 32) else c)"

definition toLowerCase :: "string \<Rightarrow> string" where
  "toLowerCase s = map lowerChar s"

fun startsWith :: "string \<Rightarrow> string \<Rightarrow> bool" where
  "startsWith s [] = True"
| "startsWith [] (q # qs) = False"
| "startsWith (c # cs) (q # qs) = (c = q \<and> startsWith cs qs)"

fun includes_str :: "string \<Rightarrow> string \<Rightarrow> bool" where
  "includes_str [] q = (q = [])"
| "includes_str (c # cs) q = (startsWith (c # cs) q \<or> includes_str cs q)"

section \<open>The view projection: sort, filter, pagination\<close>

text \<open>
  \<open>Array.prototype.sort\<close> with a comparator. ECMAScript requires the sort to be stable;
  with a consistent comparator its result is the one of a stable insertion sort:
  an element stays in front of the later elements it does not compare greater than.
\<close>

fun insertBy :: "('a \<Rightarrow> 'a \<Rightarrow> int) \<Rightarrow> 'a \<Rightarrow> 'a list \<Rightarrow> 'a list" where
  "insertBy cmp x [] = [x]"
| "insertBy cmp x (y # ys) = (if cmp x y \<le> 0 then x # y # ys else y # insertBy cmp x ys)"

definition sortBy :: "('a \<Rightarrow> 'a \<Rightarrow> int) \<Rightarrow> 'a list \<Rightarrow> 'a list" where
  "sortBy cmp xs = foldr (insertBy cmp) xs []"

text \<open>
  \<open>byDate\<close>; its first argument is \<open>Date.parse\<close>, a function of the host: the time value
  in milliseconds since the epoch, \<open>None\<close> for \<open>NaN\<close>. The second is the optional string
  \<open>it.detail?.date\<close>.
\<close>

definition byDate :: "(string \<Rightarrow> int option) \<Rightarrow> string option \<Rightarrow> int" where
  "byDate parse d =
     (case d of
        None \<Rightarrow> 0
      | Some s \<Rightarrow> if s = [] then 0 else (case parse s of None \<Rightarrow> 0 | Some t \<Rightarrow> t))"

text \<open>\<open>it.detail?.date\<close>\<close>

definition detailDate :: "EnrichedItem \<Rightarrow> string option" where
  "detailDate it = map_option date (detail it)"

definition dateValue :: "(string \<Rightarrow> int option) \<Rightarrow> EnrichedItem \<Rightarrow> int" where
  "dateValue parse it = byDate parse (detailDate it)"

text \<open>\<open>it.detail?.title && it.detail.title.toLowerCase().includes(q)\<close>\<close>

definition titleMatches :: "string \<Rightarrow> EnrichedItem \<Rightarrow> bool" where
  "titleMatches q it =
     (case detail it of
        None \<Rightarrow> False
      | Some d \<Rightarrow> title d \<noteq> [] \<and> includes_str (toLowerCase (title d)) q)"

definition filteredSorted :: "(string \<Rightarrow> int option) \<Rightarrow> string \<Rightarrow> EnrichedItem list \<Rightarrow> EnrichedItem list" where
  "filteredSorted parse query list =
     (let q = toLowerCase (trim query);
          sorted_base = sortBy (\<lambda>a b. dateValue parse b - dateValue parse a) list
      in if q = [] then sorted_base else filter (titleMatches q) sorted_base)"

text \<open>
  \<open>Date.parse\<close> on the date strings of the sample lists: the ISO dates 1969-12-31 and
  1970-01-02 are midnight UTC one day before and one day after the epoch; the other
  strings of the samples are no dates.
\<close>

definition parseSample :: "string \<Rightarrow> int option" where
  "parseSample s =
     (if s = ''1969-12-31'' then Some (- 86400000)
      else if s = ''1970-01-02'' then Some 86400000
      else None)"

definition PAGE_SIZE :: nat where
  "PAGE_SIZE = 5"

text \<open>\<open>Math.max(1, Math.ceil(filteredSorted.length / PAGE_SIZE))\<close>, for a page size.\<close>

definition totalPages :: "nat \<Rightarrow> nat \<Rightarrow> int" where
  "totalPages pageSize len = max 1 \<lceil>real len / real pageSize\<rceil>"

text \<open>The page after the clamp effect has run on a filtered list of \<open>len\<close> items.\<close>

definition clampPage :: "nat \<Rightarrow> nat \<Rightarrow> int \<Rightarrow> int" where
  "clampPage pageSize len p =
     (if len = 0 then 1 else min (max 1 p) (totalPages pageSize len))"

definition clampEffect :: "(string \<Rightarrow> int option) \<Rightarrow> ViewState \<Rightarrow> ViewState" where
  "clampEffect parse s =
     s\<lparr>page := clampPage PAGE_SIZE
                 (length (filteredSorted parse (searchQuery s)
                            (case items s of None \<Rightarrow> [] | Some l \<Rightarrow> l)))
                 (page s)\<rparr>"

section \<open>Paragraphs: the form's content and the edit button\<close>

text \<open>\<open>formContent.replace(/\r\n/g, "\n")\<close>\<close>

fun replaceCRLF :: "string \<Rightarrow> string" where
  "replaceCRLF (c # d # cs) =
     (if c = CR \<and> d = LF then LF # replaceCRLF cs else c # replaceCRLF (d # cs))"
| "replaceCRLF cs = cs"

text \<open>
  \<open>split(/\n{2,}/)\<close>: the text is cut at every maximal run of two or more line feeds;
  \<open>acc\<close> holds the current piece, reversed.
\<close>

function splitBlankLines :: "string \<Rightarrow> string \<Rightarrow> string list" where
  "splitBlankLines acc [] = [rev acc]"
| "splitBlankLines acc (c # cs) =
     (if c = LF \<and> cs \<noteq> [] \<and> hd cs = LF
      then rev acc # splitBlankLines [] (dropWhile (\<lambda>x. x = LF) cs)
      else splitBlankLines (c # acc) cs)"
  by pat_completeness auto
termination
  by (relation "measure (\<lambda>(acc, cs). length cs)")
     (auto simp: le_imp_less_Suc length_dropWhile_le)

text \<open>\<open>Array.prototype.join\<close>\<close>

fun join :: "string \<Rightarrow> string list \<Rightarrow> string" where
  "join sep [] = []"
| "join sep [x] = x"
| "join sep (x # y # ys) = x @ sep @ join sep (y # ys)"

text \<open>The \<open>content\<close> of the payload that the form submits, for the text of the form.\<close>

definition contentPayload :: "string \<Rightarrow> string list" where
  "contentPayload formContent =
     (let normalized = replaceCRLF formContent;
          contentArray = filter (\<lambda>p. length p > 0) (map trim (splitBlankLines [] normalized))
      in if contentArray \<noteq> [] then contentArray else [trim normalized])"

text \<open>
  The edit button. \<open>contentStr\<close> is the text its run-time tests make of a value
  \<open>rawContent\<close>: an array is joined with a blank line, a string is taken as it is.
\<close>

definition contentStr :: "json \<Rightarrow> string" where
  "contentStr rawContent =
     (case rawContent of
        JArr ps \<Rightarrow>
          join [LF, LF] (filter (\<lambda>p. length p > 0) (map trim [s. JStr s \<leftarrow> ps]))
      | JStr s \<Rightarrow> s
      | _ \<Rightarrow> [])"

text \<open>
  The handler reads \<open>rawContent\<close> off \<open>item.detail\<close>, the detail that \<open>toDetail\<close> built:
  its \<open>content\<close> is a string. Without a detail the handler returns and the form is
  not filled (\<open>None\<close>).
\<close>

definition editContent :: "EnrichedItem \<Rightarrow> string option" where
  "editContent item =
     (case detail item of
        None \<Rightarrow> None
      | Some d \<Rightarrow> Some (contentStr (JStr (content d))))"

section \<open>Predicates of the specification\<close>

text \<open>
  A malformed index entry in the words of the specification: not a record, or without
  a string \<open>url\<close>, or without a string \<open>pathname\<close>.
\<close>

definition malformed_claimed :: "json \<Rightarrow> bool" where
  "malformed_claimed u =
     (\<not> isRecord u \<or> stringOrNull (getProp u ''url'') = None
      \<or> stringOrNull (getProp u ''pathname'') = None)"

text \<open>The same, where an empty string counts as missing.\<close>

definition malformed :: "json \<Rightarrow> bool" where
  "malformed u =
     (\<not> isRecord u
      \<or> (case getProp u ''url'' of Some (JStr s) \<Rightarrow> s = [] | _ \<Rightarrow> True)
      \<or> (case getProp u ''pathname'' of Some (JStr s) \<Rightarrow> s = [] | _ \<Rightarrow> True))"

text \<open>The \<open>url\<close> and \<open>pathname\<close> an index entry carries.\<close>

definition entryOf :: "json \<Rightarrow> ProjectListItem" where
  "entryOf u = \<lparr>url = stringOrEmpty (getProp u ''url''),
                pathname = stringOrEmpty (getProp u ''pathname'')\<rparr>"

text \<open>The \<open>title\<close> of a detail body is absent, not a string, or the empty string.\<close>

definition titleMissing :: "json \<Rightarrow> bool" where
  "titleMissing u = (case getProp u ''title'' of Some (JStr t) \<Rightarrow> t = [] | _ \<Rightarrow> True)"

text \<open>The code unit \<open>a\<close> is directly followed by \<open>b\<close> somewhere in the text.\<close>

fun hasPair :: "char \<Rightarrow> char \<Rightarrow> string \<Rightarrow> bool" where
  "hasPair a b (c # d # cs) = ((c = a \<and> d = b) \<or> hasPair a b (d # cs))"
| "hasPair a b cs = False"

text \<open>
  A paragraph as the form stores it: not empty, trimmed, without a blank line and
  without a carriage return before a line feed.
\<close>

definition isParagraph :: "string \<Rightarrow> bool" where
  "isParagraph p = (p \<noteq> [] \<and> trim p = p \<and> \<not> hasPair LF LF p \<and> \<not> hasPair CR LF p)"

section \<open>Sample data\<close>

text \<open>An index of five entries, and outcomes in which the third detail URL answers 500.\<close>

definition entry :: "string \<Rightarrow> string \<Rightarrow> json" where
  "entry u p = JObj [(''url'', JStr u), (''pathname'', JStr p)]"

definition fiveEntries :: "json list" where
  "fiveEntries =
     [entry ''u1'' ''/p1'', entry ''u2'' ''/p2'', entry ''u3'' ''/p3'',
      entry ''u4'' ''/p4'', entry ''u5'' ''/p5'']"

definition oneFailing :: "string \<Rightarrow> fetch_result" where
  "oneFailing u =
     (if u = ''u3'' then Resolves 500 (Json JNull)
      else Resolves 200 (Json (JObj [(''title'', JStr u)])))"

definition abortError :: exn where
  "abortError = DOMException ''AbortError'' ''The operation was aborted.''"

text \<open>A detail body with a title and fields of the wrong types.\<close>

definition sampleDetail :: json where
  "sampleDetail = JObj [(''title'', JStr ''T''), (''content'', JNum 7), (''authors'', JStr ''A''),
                        (''partner'', JNull), (''venue'', JStr ''V'')]"

text \<open>An item without a detail, and items with a detail of a given date.\<close>

definition undated :: "string \<Rightarrow> EnrichedItem" where
  "undated p = \<lparr>url = ''u'', pathname = p, detail = None, error = None\<rparr>"

definition dated :: "string \<Rightarrow> string \<Rightarrow> EnrichedItem" where
  "dated p d =
     \<lparr>url = ''u'', pathname = p,
      detail = Some \<lparr>title = ''T'', content = [], date = d,
                      partner = \<lparr>name = [], url_partner = []\<rparr>\<rparr>,
      error = None\<rparr>"




section \<open>The list load\<close>

lemma listRaw_JArr: "listRaw (JArr xs) = xs"
  by (simp add: listRaw_def)

lemma listRaw_data: "getProp (JObj m) ''data'' = Some (JArr xs) \<Longrightarrow> listRaw (JObj m) = xs"
  by (simp add: listRaw_def isRecord_def)

lemma listRaw_items:
  "\<forall>ys. getProp (JObj m) ''data'' \<noteq> Some (JArr ys) \<Longrightarrow>
   getProp (JObj m) ''items'' = Some (JArr xs) \<Longrightarrow> listRaw (JObj m) = xs"
  by (auto simp: listRaw_def isRecord_def split: option.splits json.splits)

lemma listRaw_other:
  "\<not> isArray j \<Longrightarrow> \<forall>ys. getProp j ''data'' \<noteq> Some (JArr ys) \<Longrightarrow>
   \<forall>ys. getProp j ''items'' \<noteq> Some (JArr ys) \<Longrightarrow> listRaw j = []"
  by (auto simp: listRaw_def isArray_def split: option.splits json.splits)

lemma fetchProjects_ok:
  "ok st \<Longrightarrow> fetchProjects (Resolves st (Json j)) net = Inr (map (enrich net) (base j))"
  by (simp add: fetchProjects_def)

lemma fetchProjects_Inr:
  "fetchProjects (Resolves st (Json j)) net = Inr its \<Longrightarrow> its = map (enrich net) (base j)"
  by (auto simp: fetchProjects_def split: if_splits)

lemma fetchProjects_listRaw:
  "listRaw j = listRaw j' \<Longrightarrow>
   fetchProjects (Resolves st (Json j)) net = fetchProjects (Resolves st (Json j')) net"
  by (simp add: fetchProjects_def base_def)

lemma fetchProjects_aborted:
  "listRes = Rejects e \<or> (\<exists>st. ok st \<and> listRes = Resolves st (JsonRejects e)) \<Longrightarrow>
   fetchProjects listRes net = Inl e"
  by (auto simp: fetchProjects_def)

lemma enrich_url: "url (enrich net b) = url b"
  by (auto simp: enrich_def split: sum.splits option.splits)

lemma enrich_pathname: "pathname (enrich net b) = pathname b"
  by (auto simp: enrich_def split: sum.splits option.splits)

lemma enrich_success:
  "net (url b) = Resolves s (Json d) \<Longrightarrow> ok s \<Longrightarrow> toDetail d = Some dd \<Longrightarrow>
   enrich net b = \<lparr>url = url b, pathname = pathname b, detail = Some dd, error = None\<rparr>"
  by (simp add: enrich_def detailAttempt_def)

lemma enrich_invalid:
  "net (url b) = Resolves s (Json d) \<Longrightarrow> ok s \<Longrightarrow> toDetail d = None \<Longrightarrow>
   enrich net b = \<lparr>url = url b, pathname = pathname b, detail = None,
                    error = Some ''Invalid detail schema''\<rparr>"
  by (simp add: enrich_def detailAttempt_def)

lemma enrich_http:
  "net (url b) = Resolves s bd \<Longrightarrow> \<not> ok s \<Longrightarrow>
   enrich net b = \<lparr>url = url b, pathname = pathname b, detail = None,
                    error = Some (''HTTP '' @ decimal s)\<rparr>"
  by (simp add: enrich_def detailAttempt_def httpError_def isAbortError_def messageOr_def)

lemma enrich_throws:
  "net (url b) = Rejects e \<or> (\<exists>s. ok s \<and> net (url b) = Resolves s (JsonRejects e)) \<Longrightarrow>
   enrich net b =
     (if isAbortError e
      then \<lparr>url = url b, pathname = pathname b, detail = None, error = None\<rparr>
      else \<lparr>url = url b, pathname = pathname b, detail = None,
            error = Some (messageOr e ''Failed to load details'')\<rparr>)"
  by (auto simp: enrich_def detailAttempt_def)

lemma enrich_at_most_one: "detail (enrich net b) = None \<or> error (enrich net b) = None"
  by (auto simp: enrich_def split: sum.splits option.splits)

lemma toListItem_Some:
  "toListItem u = Some b \<Longrightarrow>
   getProp u ''url'' = Some (JStr (url b)) \<and> getProp u ''pathname'' = Some (JStr (pathname b))"
  by (auto simp: toListItem_def stringOrNull_def split: if_splits option.splits json.splits)

lemma base_from_raw:
  "b \<in> set (base j) \<Longrightarrow> \<exists>u \<in> set (listRaw j). toListItem u = Some b"
  by (auto simp: base_def List.map_filter_def)

lemma toListItem_malformed: "toListItem u = (if malformed u then None else Some (entryOf u))"
  by (auto simp: toListItem_def malformed_def entryOf_def stringOrNull_def stringOrEmpty_def
      split: option.splits json.splits)

lemma map_filter_toListItem:
  "List.map_filter toListItem raw = map entryOf (filter (\<lambda>u. \<not> malformed u) raw)"
  by (induction raw) (simp_all add: toListItem_malformed)

lemma length_filter_not: "length (filter (\<lambda>u. \<not> P u) xs) = length xs - length (filter P xs)"
  by (induction xs) (auto simp: Suc_diff_le)

lemma sample_load:
  "fetchProjects (Resolves 200 (Json (JArr fiveEntries))) oneFailing =
     Inr (map (\<lambda>(u, p, e).
            \<lparr>url = u, pathname = p,
             detail = (if e then None else Some \<lparr>title = u, content = [], date = [],
                          partner = \<lparr>name = [], url_partner = []\<rparr>\<rparr>),
             error = (if e then Some ''HTTP 500'' else None)\<rparr>)
          [(''u1'', ''/p1'', False), (''u2'', ''/p2'', False), (''u3'', ''/p3'', True),
           (''u4'', ''/p4'', False), (''u5'', ''/p5'', False)])"
  by (simp add: fetchProjects_def ok_def base_def listRaw_def fiveEntries_def entry_def
      toListItem_def isRecord_def stringOrNull_def enrich_def detailAttempt_def
      oneFailing_def toDetail_def stringOrEmpty_def toPartner_def httpError_def
      isAbortError_def messageOr_def decimal.simps digit_def)

text \<open>
  Claim C1. The list load takes the same entries from a bare array, from a record with
  the array under \<open>data\<close> and from a record with the array under \<open>items\<close> (when both
  are arrays, \<open>data\<close> is taken); every other shape gives the empty index, and the load
  then resolves to the empty list instead of rejecting.
\<close>

theorem index_shapes:
  "listRaw (JArr xs) = xs
   \<and> listRaw (JObj [(''data'', JArr xs)]) = xs
   \<and> listRaw (JObj [(''items'', JArr xs)]) = xs
   \<and> fetchProjects (Resolves st (Json (JObj [(''data'', JArr xs)]))) net
       = fetchProjects (Resolves st (Json (JArr xs))) net
   \<and> fetchProjects (Resolves st (Json (JObj [(''items'', JArr xs)]))) net
       = fetchProjects (Resolves st (Json (JArr xs))) net
   \<and> (getProp (JObj m) ''data'' = Some (JArr xs) \<longrightarrow> listRaw (JObj m) = xs)
   \<and> ((\<forall>ys. getProp (JObj m') ''data'' \<noteq> Some (JArr ys)) \<and>
        getProp (JObj m') ''items'' = Some (JArr xs) \<longrightarrow> listRaw (JObj m') = xs)
   \<and> (\<not> isArray j \<and> (\<forall>ys. getProp j ''data'' \<noteq> Some (JArr ys)) \<and>
        (\<forall>ys. getProp j ''items'' \<noteq> Some (JArr ys)) \<and> ok st' \<longrightarrow>
        listRaw j = [] \<and> fetchProjects (Resolves st' (Json j)) net = Inr [])"
proof -
  have d: "listRaw (JObj [(''data'', JArr xs)]) = xs"
    by (rule listRaw_data) simp
  have i: "listRaw (JObj [(''items'', JArr xs)]) = xs"
    by (rule listRaw_items) simp_all
  have o: "listRaw j = [] \<Longrightarrow> ok st' \<Longrightarrow> fetchProjects (Resolves st' (Json j)) net = Inr []"
    by (simp add: fetchProjects_ok base_def)
  show ?thesis
    using d i o listRaw_data [of m xs] listRaw_items [of m' xs] listRaw_other [of j]
      fetchProjects_listRaw [of "JObj [(''data'', JArr xs)]" "JArr xs" st net]
      fetchProjects_listRaw [of "JObj [(''items'', JArr xs)]" "JArr xs" st net]
    by (simp add: listRaw_JArr)
qed

theorem index_shapes_witness:
  "getProp (JObj [(''total'', JNum 5), (''data'', JArr fiveEntries)]) ''data'' = Some (JArr fiveEntries)
   \<and> listRaw (JObj [(''total'', JNum 5), (''data'', JArr fiveEntries)]) = fiveEntries
   \<and> listRaw (JObj [(''data'', JNull), (''items'', JArr fiveEntries)]) = fiveEntries
   \<and> \<not> isArray (JObj [(''data'', JStr ''none''), (''rows'', JArr fiveEntries)])
   \<and> ok 200
   \<and> fetchProjects (Resolves 200 (Json (JObj [(''data'', JStr ''none''), (''rows'', JArr fiveEntries)])))
        oneFailing = Inr []"
  using index_shapes [of fiveEntries 200 oneFailing
      "[(''total'', JNum 5), (''data'', JArr fiveEntries)]"
      "[(''data'', JNull), (''items'', JArr fiveEntries)]"
      "JObj [(''data'', JStr ''none''), (''rows'', JArr fiveEntries)]" 200]
  by (simp add: isArray_def ok_def)

text \<open>
  Claim C2, as amended. An index entry is malformed when it is not a record, or its
  \<open>url\<close> or its \<open>pathname\<close> is absent, not a string, or the empty string. Of an index of
  N entries with K malformed ones the load makes exactly N - K items: the well-formed
  entries, in their order, each with its own \<open>url\<close> and \<open>pathname\<close>.
\<close>

theorem malformed_dropped:
  "ok st \<Longrightarrow>
   \<exists>its. fetchProjects (Resolves st (Json j)) net = Inr its
     \<and> length its = length (listRaw j) - length (filter malformed (listRaw j))
     \<and> map (\<lambda>it. \<lparr>url = url it, pathname = pathname it\<rparr>) its
         = map entryOf (filter (\<lambda>u. \<not> malformed u) (listRaw j))"
  by (simp add: fetchProjects_def base_def map_filter_toListItem length_filter_not
      enrich_url enrich_pathname o_def)

theorem malformed_dropped_witness:
  "ok 200 \<and>
   (\<exists>its. fetchProjects (Resolves 200 (Json (JArr [JNull, entry ''u'' ''/p'', entry [] ''/q''])))
             oneFailing = Inr its
      \<and> length its = 1
      \<and> map (\<lambda>it. \<lparr>url = url it, pathname = pathname it\<rparr>) its = [\<lparr>url = ''u'', pathname = ''/p''\<rparr>])"
  using malformed_dropped [of 200 "JArr [JNull, entry ''u'' ''/p'', entry [] ''/q'']" oneFailing]
  by (auto simp: ok_def listRaw_def malformed_def isRecord_def entry_def entryOf_def
      stringOrEmpty_def)

text \<open>
  The claim as it is written fails: an entry whose \<open>url\<close> is the empty string has a
  string \<open>url\<close> and a string \<open>pathname\<close>, so N = 1 and K = 0, and the load makes no item.
\<close>

theorem malformed_counterexample:
  "fetchProjects (Resolves 200 (Json (JArr [entry [] ''/p'']))) oneFailing = Inr []
   \<and> length [entry [] ''/p''] - length (filter malformed_claimed [entry [] ''/p'']) = 1"
  by (simp add: fetchProjects_def ok_def base_def listRaw_def toListItem_def
      isRecord_def stringOrNull_def malformed_claimed_def entry_def)

text \<open>
  Claim C3. When the index is fetched, the load resolves to one item per surviving
  entry, in order, whatever the detail fetches do: an entry whose detail answers with a
  valid body carries that detail and no error; one whose detail answers outside 2xx
  carries the error \<open>HTTP status\<close>; one whose body fails the schema carries the error
  \<open>Invalid detail schema\<close>. No entry's outcome depends on another entry's fetch.
\<close>

theorem detail_failure_contained:
  "ok st \<Longrightarrow>
   \<exists>its. fetchProjects (Resolves st (Json j)) net = Inr its
     \<and> length its = length (base j)
     \<and> (\<forall>i < length (base j).
            url (its ! i) = url (base j ! i) \<and> pathname (its ! i) = pathname (base j ! i)
          \<and> (\<forall>s d dd. net (url (base j ! i)) = Resolves s (Json d) \<and> ok s \<and> toDetail d = Some dd
                \<longrightarrow> detail (its ! i) = Some dd \<and> error (its ! i) = None)
          \<and> (\<forall>s bd. net (url (base j ! i)) = Resolves s bd \<and> \<not> ok s
                \<longrightarrow> detail (its ! i) = None \<and> error (its ! i) = Some (''HTTP '' @ decimal s))
          \<and> (\<forall>s d. net (url (base j ! i)) = Resolves s (Json d) \<and> ok s \<and> toDetail d = None
                \<longrightarrow> detail (its ! i) = None \<and> error (its ! i) = Some ''Invalid detail schema''))"
  by (auto simp: fetchProjects_def enrich_url enrich_pathname enrich_success enrich_invalid
      enrich_http)

text \<open>One failing URL among five: five items, four with a detail and one with an error.\<close>

theorem detail_failure_contained_witness:
  "ok 200 \<and>
   (\<exists>its. fetchProjects (Resolves 200 (Json (JArr fiveEntries))) oneFailing = Inr its
      \<and> length its = 5
      \<and> length (filter (\<lambda>it. detail it \<noteq> None \<and> error it = None) its) = 4
      \<and> length (filter (\<lambda>it. detail it = None \<and> error it \<noteq> None) its) = 1
      \<and> detail (its ! 2) = None \<and> error (its ! 2) = Some ''HTTP 500'')"
  using detail_failure_contained [of 200 "JArr fiveEntries" oneFailing]
  by (simp add: sample_load ok_def)

text \<open>
  Claim C5. An entry whose detail fetch throws an abort error becomes the bare entry,
  with neither a detail nor an error; when it throws anything else the entry carries
  the message as its error (the fallback text when the thrown value is no \<open>Error\<close>), and
  a status outside 2xx is such a failure, with the message \<open>HTTP status\<close>.
\<close>

theorem cancelled_detail_bare:
  "((net (url b) = Rejects e \<or> (\<exists>s. ok s \<and> net (url b) = Resolves s (JsonRejects e)))
      \<and> isAbortError e \<longrightarrow>
      enrich net b = \<lparr>url = url b, pathname = pathname b, detail = None, error = None\<rparr>)
   \<and> ((net' (url b') = Rejects e' \<or> (\<exists>s. ok s \<and> net' (url b') = Resolves s (JsonRejects e')))
      \<and> \<not> isAbortError e' \<longrightarrow>
      enrich net' b' = \<lparr>url = url b', pathname = pathname b', detail = None,
                         error = Some (messageOr e' ''Failed to load details'')\<rparr>)
   \<and> (net'' (url b'') = Resolves s'' bd \<and> \<not> ok s'' \<longrightarrow>
      enrich net'' b'' = \<lparr>url = url b'', pathname = pathname b'', detail = None,
                           error = Some (''HTTP '' @ decimal s'')\<rparr>)"
  using enrich_throws [of net b e] enrich_throws [of net' b' e'] enrich_http [of net'' b'' s'' bd]
  by auto

theorem cancelled_detail_bare_witness:
  "isAbortError abortError
   \<and> enrich (\<lambda>u. Rejects abortError) \<lparr>url = ''u1'', pathname = ''/p1''\<rparr>
       = \<lparr>url = ''u1'', pathname = ''/p1'', detail = None, error = None\<rparr>
   \<and> \<not> isAbortError (ErrorObj ''Failed to fetch'')
   \<and> enrich (\<lambda>u. Rejects (ErrorObj ''Failed to fetch'')) \<lparr>url = ''u1'', pathname = ''/p1''\<rparr>
       = \<lparr>url = ''u1'', pathname = ''/p1'', detail = None, error = Some ''Failed to fetch''\<rparr>
   \<and> \<not> ok 500
   \<and> enrich oneFailing \<lparr>url = ''u3'', pathname = ''/p3''\<rparr>
       = \<lparr>url = ''u3'', pathname = ''/p3'', detail = None, error = Some ''HTTP 500''\<rparr>"
  using cancelled_detail_bare [of "\<lambda>u. Rejects abortError" "\<lparr>url = ''u1'', pathname = ''/p1''\<rparr>"
      abortError "\<lambda>u. Rejects (ErrorObj ''Failed to fetch'')" "\<lparr>url = ''u1'', pathname = ''/p1''\<rparr>"
      "ErrorObj ''Failed to fetch''" oneFailing "\<lparr>url = ''u3'', pathname = ''/p3''\<rparr>"
      500 "Json JNull"]
  by (simp add: isAbortError_def abortError_def messageOr_def ok_def oneFailing_def
      decimal.simps digit_def)

text \<open>
  Claim C10. Every item the load produces has at most one of \<open>detail\<close> and \<open>error\<close>,
  and its \<open>url\<close> and \<open>pathname\<close> are those of its index entry, which are the strings the
  raw entry holds: success sets only the detail, a schema or HTTP failure only the error,
  an abort neither.
\<close>

theorem at_most_one_of_detail_error:
  "fetchProjects (Resolves st (Json j)) net = Inr its \<Longrightarrow>
   length its = length (base j)
   \<and> (\<forall>i < length its.
        (detail (its ! i) = None \<or> error (its ! i) = None)
        \<and> url (its ! i) = url (base j ! i) \<and> pathname (its ! i) = pathname (base j ! i)
        \<and> (\<exists>u \<in> set (listRaw j).
              getProp u ''url'' = Some (JStr (url (its ! i)))
              \<and> getProp u ''pathname'' = Some (JStr (pathname (its ! i))))
        \<and> (case detailAttempt (net (url (base j ! i))) of
              Inr (Some d) \<Rightarrow> detail (its ! i) = Some d \<and> error (its ! i) = None
            | Inr None \<Rightarrow> detail (its ! i) = None \<and> error (its ! i) = Some ''Invalid detail schema''
            | Inl e \<Rightarrow> detail (its ! i) = None
                \<and> error (its ! i) =
                    (if isAbortError e then None
                     else Some (messageOr e ''Failed to load details''))))"
proof -
  assume a: "fetchProjects (Resolves st (Json j)) net = Inr its"
  have its: "its = map (enrich net) (base j)"
    using a by (rule fetchProjects_Inr)
  have raw: "\<exists>u \<in> set (listRaw j).
              getProp u ''url'' = Some (JStr (url (base j ! i)))
              \<and> getProp u ''pathname'' = Some (JStr (pathname (base j ! i)))"
    if "i < length (base j)" for i
  proof -
    from that have "base j ! i \<in> set (base j)" by simp
    then obtain u where "u \<in> set (listRaw j)" "toListItem u = Some (base j ! i)"
      using base_from_raw by blast
    then show ?thesis using toListItem_Some by blast
  qed
  have br: "case detailAttempt (net (url b)) of
              Inr (Some d) \<Rightarrow> detail (enrich net b) = Some d \<and> error (enrich net b) = None
            | Inr None \<Rightarrow> detail (enrich net b) = None
                \<and> error (enrich net b) = Some ''Invalid detail schema''
            | Inl e \<Rightarrow> detail (enrich net b) = None
                \<and> error (enrich net b) =
                    (if isAbortError e then None
                     else Some (messageOr e ''Failed to load details''))" for b
    by (simp add: enrich_def split: sum.splits option.splits)
  have main:
    "\<forall>i < length its.
        (detail (its ! i) = None \<or> error (its ! i) = None)
        \<and> url (its ! i) = url (base j ! i) \<and> pathname (its ! i) = pathname (base j ! i)
        \<and> (\<exists>u \<in> set (listRaw j).
              getProp u ''url'' = Some (JStr (url (its ! i)))
              \<and> getProp u ''pathname'' = Some (JStr (pathname (its ! i))))
        \<and> (case detailAttempt (net (url (base j ! i))) of
              Inr (Some d) \<Rightarrow> detail (its ! i) = Some d \<and> error (its ! i) = None
            | Inr None \<Rightarrow> detail (its ! i) = None \<and> error (its ! i) = Some ''Invalid detail schema''
            | Inl e \<Rightarrow> detail (its ! i) = None
                \<and> error (its ! i) =
                    (if isAbortError e then None
                     else Some (messageOr e ''Failed to load details'')))"
  proof (intro allI impI)
    fix i
    assume "i < length its"
    then have i: "i < length (base j)" by (simp add: its)
    then have eq: "its ! i = enrich net (base j ! i)" by (simp add: its)
    show "(detail (its ! i) = None \<or> error (its ! i) = None)
        \<and> url (its ! i) = url (base j ! i) \<and> pathname (its ! i) = pathname (base j ! i)
        \<and> (\<exists>u \<in> set (listRaw j).
              getProp u ''url'' = Some (JStr (url (its ! i)))
              \<and> getProp u ''pathname'' = Some (JStr (pathname (its ! i))))
        \<and> (case detailAttempt (net (url (base j ! i))) of
              Inr (Some d) \<Rightarrow> detail (its ! i) = Some d \<and> error (its ! i) = None
            | Inr None \<Rightarrow> detail (its ! i) = None \<and> error (its ! i) = Some ''Invalid detail schema''
            | Inl e \<Rightarrow> detail (its ! i) = None
                \<and> error (its ! i) =
                    (if isAbortError e then None
                     else Some (messageOr e ''Failed to load details'')))"
      unfolding eq enrich_url enrich_pathname
      using raw [OF i] br [of "base j ! i"] enrich_at_most_one [of net "base j ! i"]
      by (intro conjI) (assumption | rule refl)+
  qed
  have len: "length its = length (base j)" by (simp add: its)
  from len main show ?thesis by (rule conjI)
qed


theorem at_most_one_of_detail_error_witness:
  "\<exists>its. fetchProjects (Resolves 200 (Json (JArr fiveEntries))) oneFailing = Inr its
      \<and> length its = 5
      \<and> (\<forall>i < length its. detail (its ! i) = None \<or> error (its ! i) = None)
      \<and> map url its = [''u1'', ''u2'', ''u3'', ''u4'', ''u5'']
      \<and> map pathname its = [''/p1'', ''/p2'', ''/p3'', ''/p4'', ''/p5'']"
proof -
  let ?its = "map (enrich oneFailing) (base (JArr fiveEntries))"
  have e: "fetchProjects (Resolves 200 (Json (JArr fiveEntries))) oneFailing = Inr ?its"
    by (simp add: fetchProjects_ok ok_def)
  have b: "base (JArr fiveEntries) =
      [\<lparr>url = ''u1'', pathname = ''/p1''\<rparr>, \<lparr>url = ''u2'', pathname = ''/p2''\<rparr>,
       \<lparr>url = ''u3'', pathname = ''/p3''\<rparr>, \<lparr>url = ''u4'', pathname = ''/p4''\<rparr>,
       \<lparr>url = ''u5'', pathname = ''/p5''\<rparr>]"
    by (simp add: base_def listRaw_def fiveEntries_def entry_def toListItem_def isRecord_def
        stringOrNull_def)
  have l: "length ?its = 5"
    by (simp add: b)
  have u: "map url ?its = [''u1'', ''u2'', ''u3'', ''u4'', ''u5'']"
    by (simp add: b enrich_url)
  have p: "map pathname ?its = [''/p1'', ''/p2'', ''/p3'', ''/p4'', ''/p5'']"
    by (simp add: b enrich_pathname)
  note t = at_most_one_of_detail_error [OF e, THEN conjunct2, rule_format]
  have m: "\<forall>i < length ?its. detail (?its ! i) = None \<or> error (?its ! i) = None"
  proof (intro allI impI)
    fix i
    assume "i < length ?its"
    then show "detail (?its ! i) = None \<or> error (?its ! i) = None"
      by (rule t [THEN conjunct1])
  qed
  from e l m u p show ?thesis
    by (intro exI [of _ ?its] conjI)
qed

section \<open>The detail schema\<close>

lemma toDetail_None_iff: "toDetail u = None \<longleftrightarrow> titleMissing u"
  by (cases u) (auto simp: toDetail_def titleMissing_def isRecord_def stringOrNull_def
      split: option.splits json.splits)

lemma toDetail_pub_None_iff: "toDetail_pub u = None \<longleftrightarrow> titleMissing u"
  by (cases u) (auto simp: toDetail_pub_def titleMissing_def isRecord_def stringOrNull_def
      split: option.splits json.splits)

lemma toDetail_value:
  "\<not> titleMissing u \<Longrightarrow>
   toDetail u = Some \<lparr>title = stringOrEmpty (getProp u ''title''),
                      content = stringOrEmpty (getProp u ''content''),
                      date = stringOrEmpty (getProp u ''date''),
                      partner = toPartner (getProp u ''partner'')\<rparr>"
  by (cases u) (auto simp: toDetail_def titleMissing_def isRecord_def stringOrNull_def
      stringOrEmpty_def split: option.splits json.splits)

lemma toDetail_pub_value:
  "\<not> titleMissing u \<Longrightarrow>
   toDetail_pub u = Some \<lparr>title_pub = stringOrEmpty (getProp u ''title''),
                          content_pub = stringOrEmpty (getProp u ''content''),
                          date_pub = stringOrEmpty (getProp u ''date''),
                          publicationUrl = stringOrEmpty (getProp u ''publicationUrl''),
                          authors = toAuthors (getProp u ''authors''),
                          venue = stringOrEmpty (getProp u ''venue'')\<rparr>"
  by (cases u) (auto simp: toDetail_pub_def titleMissing_def isRecord_def stringOrNull_def
      stringOrEmpty_def split: option.splits json.splits)

lemma stringOrEmpty_other: "\<forall>s. x \<noteq> Some (JStr s) \<Longrightarrow> stringOrEmpty x = []"
  by (auto simp: stringOrEmpty_def split: option.splits json.splits)

lemma toAuthors_other: "\<forall>as. x \<noteq> Some (JArr as) \<Longrightarrow> toAuthors x = []"
  by (auto simp: toAuthors_def split: option.splits json.splits)

lemma toPartner_other:
  "x = None \<or> (\<exists>r. x = Some r \<and> \<not> isRecord r) \<Longrightarrow>
   toPartner x = \<lparr>name = [], url_partner = []\<rparr>"
  by (auto simp: toPartner_def)

text \<open>
  Claim C4. For both kinds of detail the parse of a body fails exactly when its \<open>title\<close>
  is absent, not a string, or the empty string. Otherwise it succeeds whatever the other
  fields hold: each string field is the string the body has there, or the empty string
  when the body has no string there; \<open>authors\<close> is empty when the body has no array
  there; \<open>partner\<close> has an empty name and an empty URL when the body has no record there.
\<close>

theorem detail_parse_title_only:
  "(toDetail u = None \<longleftrightarrow> titleMissing u)
   \<and> (toDetail_pub u = None \<longleftrightarrow> titleMissing u)
   \<and> (\<not> titleMissing v \<longrightarrow>
        toDetail v = Some \<lparr>title = stringOrEmpty (getProp v ''title''),
                           content = stringOrEmpty (getProp v ''content''),
                           date = stringOrEmpty (getProp v ''date''),
                           partner = toPartner (getProp v ''partner'')\<rparr>
      \<and> toDetail_pub v = Some \<lparr>title_pub = stringOrEmpty (getProp v ''title''),
                          content_pub = stringOrEmpty (getProp v ''content''),
                          date_pub = stringOrEmpty (getProp v ''date''),
                          publicationUrl = stringOrEmpty (getProp v ''publicationUrl''),
                          authors = toAuthors (getProp v ''authors''),
                          venue = stringOrEmpty (getProp v ''venue'')\<rparr>)
   \<and> stringOrEmpty (Some (JStr s)) = s
   \<and> ((\<forall>s. x \<noteq> Some (JStr s)) \<longrightarrow> stringOrEmpty x = [])
   \<and> ((\<forall>as. y \<noteq> Some (JArr as)) \<longrightarrow> toAuthors y = [])
   \<and> (z = None \<or> (\<exists>r. z = Some r \<and> \<not> isRecord r) \<longrightarrow>
        toPartner z = \<lparr>name = [], url_partner = []\<rparr>)"
  using toDetail_None_iff [of u] toDetail_pub_None_iff [of u] toDetail_value [of v]
    toDetail_pub_value [of v] stringOrEmpty_other [of x] toAuthors_other [of y]
    toPartner_other [of z]
  by (simp add: stringOrEmpty_def)

theorem detail_parse_title_only_witness:
  "titleMissing (JObj [(''title'', JStr [])]) \<and> toDetail (JObj [(''title'', JStr [])]) = None
   \<and> toDetail_pub (JObj [(''title'', JStr [])]) = None
   \<and> \<not> titleMissing sampleDetail
   \<and> toDetail sampleDetail = Some \<lparr>title = ''T'', content = [], date = [],
                                     partner = \<lparr>name = [], url_partner = []\<rparr>\<rparr>
   \<and> toDetail_pub sampleDetail = Some \<lparr>title_pub = ''T'', content_pub = [], date_pub = [],
                                         publicationUrl = [], authors = [], venue = ''V''\<rparr>"
  using detail_parse_title_only [of "JObj [(''title'', JStr [])]" sampleDetail "''V''"
      "Some (JNum 7)" "Some (JStr ''A'')" "Some JNull"]
  by (simp add: titleMissing_def sampleDetail_def stringOrEmpty_def toAuthors_def toPartner_def
      isRecord_def)

section \<open>The initial load of the view\<close>

text \<open>
  Claim C9. When the fetch of the index is aborted, the load that the view starts on
  mount leaves the state as it was: the initial state stays the initial state. From any
  state the aborted load writes no items and leaves no error, and it changes nothing at
  all when no error was shown before (the only write before the fetch is
  \<open>setError(null)\<close>).
\<close>

theorem aborted_load_no_change:
  "isAbortError e \<Longrightarrow>
   listRes = Rejects e \<or> (\<exists>st. ok st \<and> listRes = Resolves st (JsonRejects e)) \<Longrightarrow>
   loadEffect listRes net initialState = initialState
   \<and> items (loadEffect listRes net s) = items s
   \<and> error_view (loadEffect listRes net s) = None
   \<and> page (loadEffect listRes net s) = page s
   \<and> searchQuery (loadEffect listRes net s) = searchQuery s
   \<and> (error_view s = None \<longrightarrow> loadEffect listRes net s = s)"
  using fetchProjects_aborted [of listRes e net]
  by (simp add: loadEffect_def load_def initialState_def)

theorem aborted_load_no_change_witness:
  "isAbortError abortError
   \<and> loadEffect (Rejects abortError) oneFailing initialState = initialState
   \<and> loadEffect (Rejects abortError) oneFailing
        \<lparr>items = Some [], error_view = None, page = 2, searchQuery = ''mesh''\<rparr>
      = \<lparr>items = Some [], error_view = None, page = 2, searchQuery = ''mesh''\<rparr>"
  using aborted_load_no_change [of abortError "Rejects abortError" oneFailing
      "\<lparr>items = Some [], error_view = None, page = 2, searchQuery = ''mesh''\<rparr>"]
  by (simp add: isAbortError_def abortError_def)

section \<open>Pagination\<close>

lemma ceil_ge: "0 < ps \<Longrightarrow> int n \<le> \<lceil>real n / real ps\<rceil> * int ps"
proof -
  assume ps: "0 < ps"
  then have h: "0 < real ps" by simp
  have "real n / real ps \<le> of_int \<lceil>real n / real ps\<rceil>"
    by (rule le_of_int_ceiling)
  then have "real n \<le> of_int \<lceil>real n / real ps\<rceil> * real ps"
    by (rule iffD1 [OF pos_divide_le_eq [OF h]])
  then have "real_of_int (int n) \<le> real_of_int (\<lceil>real n / real ps\<rceil> * int ps)"
    by simp
  then show ?thesis
    by (simp only: of_int_le_iff)
qed

lemma ceil_lt: "0 < ps \<Longrightarrow> (\<lceil>real n / real ps\<rceil> - 1) * int ps < int n"
proof -
  assume ps: "0 < ps"
  have "of_int \<lceil>real n / real ps\<rceil> - 1 < real n / real ps"
    using ceiling_correct [of "real n / real ps"] by simp
  with ps have "(of_int \<lceil>real n / real ps\<rceil> - 1) * real ps < real n"
    by (simp add: pos_less_divide_eq)
  then have "real_of_int ((\<lceil>real n / real ps\<rceil> - 1) * int ps) < real_of_int (int n)"
    by simp
  then show ?thesis
    by (simp only: of_int_less_iff)
qed

lemma ceil_pos: "0 < ps \<Longrightarrow> 0 < n \<Longrightarrow> 1 \<le> \<lceil>real n / real ps\<rceil>"
  by (simp add: ceiling_le_iff[symmetric] less_ceiling_iff Suc_le_eq)

text \<open>
  Claim C7. For a positive page size, the number of pages is
  \<open>max(1, ceil(filteredCount / pageSize))\<close>: at least one page, enough pages for all
  items, and no page too many. The clamp effect leaves the page within
  \<open>[1, totalPages]\<close> and keeps a page that already is. With 12 items and page size 5
  there are 3 pages and page 5 becomes page 3.
\<close>

theorem pagination_clamp:
  "0 < pageSize \<Longrightarrow>
     totalPages pageSize len = max 1 \<lceil>real len / real pageSize\<rceil>
   \<and> 1 \<le> totalPages pageSize len
   \<and> int len \<le> totalPages pageSize len * int pageSize
   \<and> (0 < len \<longrightarrow> (totalPages pageSize len - 1) * int pageSize < int len)
   \<and> 1 \<le> clampPage pageSize len p
   \<and> clampPage pageSize len p \<le> totalPages pageSize len
   \<and> (1 \<le> p \<and> p \<le> totalPages pageSize len \<longrightarrow> clampPage pageSize len p = p)
   \<and> page (clampEffect parse s) = clampPage PAGE_SIZE
        (length (filteredSorted parse (searchQuery s) (case items s of None \<Rightarrow> [] | Some l \<Rightarrow> l))) (page s)"
proof -
  assume ps: "0 < pageSize"
  let ?c = "\<lceil>real len / real pageSize\<rceil>"
  have a: "int len \<le> max 1 ?c * int pageSize"
  proof -
    have "?c * int pageSize \<le> max 1 ?c * int pageSize"
      by (intro mult_right_mono) simp_all
    with ceil_ge [OF ps, of len] show ?thesis by linarith
  qed
  have b: "0 < len \<longrightarrow> (max 1 ?c - 1) * int pageSize < int len"
  proof
    assume "0 < len"
    then have "max 1 ?c = ?c" using ceil_pos [OF ps] by simp
    then show "(max 1 ?c - 1) * int pageSize < int len"
      using ceil_lt [OF ps, of len] by simp
  qed
  show ?thesis
    using a b by (simp add: totalPages_def clampPage_def clampEffect_def)
qed

theorem pagination_clamp_witness:
  "(0::nat) < 5 \<and> totalPages 5 12 = 3 \<and> clampPage 5 12 5 = 3
   \<and> 1 \<le> clampPage 5 12 5 \<and> clampPage 5 12 5 \<le> totalPages 5 12"
  using pagination_clamp [of 5 12 5]
  by (simp add: totalPages_def clampPage_def)

section \<open>Sorting by date\<close>

lemma mset_insertBy: "mset (insertBy cmp x ys) = add_mset x (mset ys)"
  by (induction ys) simp_all

lemma mset_sortBy: "mset (sortBy cmp xs) = mset xs"
  by (induction xs) (simp_all add: sortBy_def mset_insertBy)

lemma set_insertBy: "set (insertBy cmp x ys) = insert x (set ys)"
  by (induction ys) auto

lemma sorted_insertBy:
  "sorted_wrt (\<lambda>a b. k b \<le> k a) ys \<Longrightarrow>
   sorted_wrt (\<lambda>a b. k b \<le> k a) (insertBy (\<lambda>a b. k b - k a) x ys)"
  by (induction ys) (auto simp: set_insertBy)

lemma sorted_sortBy: "sorted_wrt (\<lambda>a b. k b \<le> k a) (sortBy (\<lambda>a b. k b - k a) xs)"
  by (induction xs) (simp_all add: sortBy_def sorted_insertBy)

lemma filter_insertBy:
  "filter (\<lambda>y. k y = v) (insertBy (\<lambda>a b. k b - k a) x ys) = filter (\<lambda>y. k y = v) (x # ys)"
  by (induction ys) auto

lemma filter_sortBy:
  "filter (\<lambda>y. k y = (v::int)) (sortBy (\<lambda>a b. k b - k a) xs) = filter (\<lambda>y. k y = v) xs"
proof (induction xs)
  case Nil
  show ?case by (simp add: sortBy_def)
next
  case (Cons x xs)
  have "filter (\<lambda>y. k y = v) (sortBy (\<lambda>a b. k b - k a) (x # xs))
      = filter (\<lambda>y. k y = v) (x # sortBy (\<lambda>a b. k b - k a) xs)"
    unfolding sortBy_def foldr.simps o_apply by (rule filter_insertBy)
  with Cons show ?case by simp
qed

lemma sorted_wrt_filter: "sorted_wrt R xs \<Longrightarrow> sorted_wrt R (filter P xs)"
  by (induction xs) auto


lemma filteredSorted_eq:
  "filteredSorted parse query list =
     (if toLowerCase (trim query) = []
      then sortBy (\<lambda>a b. dateValue parse b - dateValue parse a) list
      else filter (titleMatches (toLowerCase (trim query)))
             (sortBy (\<lambda>a b. dateValue parse b - dateValue parse a) list))"
  by (simp add: filteredSorted_def Let_def)

lemma filter_commute: "filter P (filter Q xs) = filter Q (filter P xs)"
  by (induction xs) simp_all

lemma dateValue_zero:
  "detail it = None \<or> (\<exists>d. detail it = Some d \<and> (date d = [] \<or> parse (date d) = None)) \<Longrightarrow>
   dateValue parse it = 0"
  by (auto simp: dateValue_def detailDate_def byDate_def)

lemma dateValue_parsed:
  "detail it = Some d \<Longrightarrow> date d \<noteq> [] \<Longrightarrow> parse (date d) = Some t \<Longrightarrow> dateValue parse it = t"
  by (simp add: dateValue_def detailDate_def byDate_def)

lemma sorted_wrt_strict_index:
  "sorted_wrt (\<lambda>a b. k b \<le> k a) xs \<Longrightarrow> i < length xs \<Longrightarrow> j < length xs \<Longrightarrow>
   k (xs ! j) < (k (xs ! i) :: int) \<Longrightarrow> i < j"
proof (rule ccontr)
  assume s: "sorted_wrt (\<lambda>a b. k b \<le> k a) xs" and i: "i < length xs" and j: "j < length xs"
    and lt: "k (xs ! j) < k (xs ! i)" and n: "\<not> i < j"
  show False
  proof (cases "i = j")
    case True
    with lt show False by simp
  next
    case False
    with n have "j < i" by simp
    with s i have "k (xs ! i) \<le> k (xs ! j)" by (simp add: sorted_wrt_iff_nth_less)
    with lt show False by simp
  qed
qed

lemma mset_filteredSorted:
  "mset (filteredSorted parse query list)
     = mset (if toLowerCase (trim query) = [] then list
             else filter (titleMatches (toLowerCase (trim query))) list)"
  by (simp add: filteredSorted_eq mset_sortBy mset_filter)

text \<open>
  Claim C6, as amended. The projection orders the items by date value, descending: an
  item of a greater date value stands in front of every item of a smaller one. The date
  value of an item whose detail has a date that \<open>Date.parse\<close> accepts is what
  \<open>Date.parse\<close> gives for it; that of an item without a detail, with an empty date or
  with a date that \<open>Date.parse\<close> rejects is zero, the epoch. So such an item comes after
  every item dated later than the epoch and before every item dated earlier. The sort
  is stable: the items of any one date value keep the order they have in the collection
  (among those the search keeps), and the result holds the items the search keeps, each
  as often as the collection does.
\<close>

theorem sort_by_date_stable:
  "sorted_wrt (\<lambda>a b. dateValue parse b \<le> dateValue parse a) (filteredSorted parse query list)
   \<and> (\<forall>i j. i < length (filteredSorted parse query list)
          \<and> j < length (filteredSorted parse query list)
          \<and> dateValue parse (filteredSorted parse query list ! j)
              < dateValue parse (filteredSorted parse query list ! i)
        \<longrightarrow> i < j)
   \<and> (\<forall>v. filter (\<lambda>it. dateValue parse it = v) (filteredSorted parse query list)
          = filter (\<lambda>it. dateValue parse it = v)
              (if toLowerCase (trim query) = [] then list
               else filter (titleMatches (toLowerCase (trim query))) list))
   \<and> mset (filteredSorted parse query list)
       = mset (if toLowerCase (trim query) = [] then list
               else filter (titleMatches (toLowerCase (trim query))) list)
   \<and> (detail it = None \<or> (\<exists>d. detail it = Some d \<and> (date d = [] \<or> parse (date d) = None))
        \<longrightarrow> dateValue parse it = 0)
   \<and> (detail it' = Some d' \<and> date d' \<noteq> [] \<and> parse (date d') = Some t
        \<longrightarrow> dateValue parse it' = t)"
proof -
  let ?k = "dateValue parse"
  let ?s = "sortBy (\<lambda>a b. ?k b - ?k a) list"
  have s: "sorted_wrt (\<lambda>a b. ?k b \<le> ?k a) ?s"
    by (rule sorted_sortBy)
  have a: "sorted_wrt (\<lambda>a b. ?k b \<le> ?k a) (filteredSorted parse query list)"
    using s sorted_wrt_filter [OF s] by (simp add: filteredSorted_eq)
  have a': "\<forall>i j. i < length (filteredSorted parse query list)
          \<and> j < length (filteredSorted parse query list)
          \<and> ?k (filteredSorted parse query list ! j) < ?k (filteredSorted parse query list ! i)
        \<longrightarrow> i < j"
    using sorted_wrt_strict_index [OF a] by blast
  have st: "filter (\<lambda>it. ?k it = v) ?s = filter (\<lambda>it. ?k it = v) list" for v
    by (rule filter_sortBy)
  have b: "filter (\<lambda>it. ?k it = v) (filteredSorted parse query list)
          = filter (\<lambda>it. ?k it = v)
              (if toLowerCase (trim query) = [] then list
               else filter (titleMatches (toLowerCase (trim query))) list)" for v
  proof (cases "toLowerCase (trim query) = []")
    case True
    then show ?thesis by (simp add: filteredSorted_eq st)
  next
    case False
    have "filter (\<lambda>it. ?k it = v) (filter (titleMatches (toLowerCase (trim query))) ?s)
        = filter (titleMatches (toLowerCase (trim query))) (filter (\<lambda>it. ?k it = v) ?s)"
      by (rule filter_commute)
    also have "\<dots> = filter (titleMatches (toLowerCase (trim query))) (filter (\<lambda>it. ?k it = v) list)"
      by (simp only: st)
    also have "\<dots> = filter (\<lambda>it. ?k it = v) (filter (titleMatches (toLowerCase (trim query))) list)"
      by (rule filter_commute)
    finally show ?thesis using False by (simp add: filteredSorted_eq)
  qed
  note c = mset_filteredSorted [of parse query list]
  note z = dateValue_zero [of it parse]
  note d = dateValue_parsed [of it' d' parse t]
  from a a' b c z d show ?thesis
    by (intro conjI allI impI) (assumption | blast)+
qed

lemma sample_sorted:
  "filteredSorted parseSample []
      [undated ''/a'', dated ''/b'' ''1969-12-31'', dated ''/c'' ''soon'',
       dated ''/e'' ''1970-01-02'', dated ''/d'' ''1969-12-31'']
    = [dated ''/e'' ''1970-01-02'', undated ''/a'', dated ''/c'' ''soon'',
       dated ''/b'' ''1969-12-31'', dated ''/d'' ''1969-12-31'']"
  by (simp add: filteredSorted_def trim_def toLowerCase_def sortBy_def dateValue_def
      detailDate_def byDate_def parseSample_def undated_def dated_def)

theorem sort_by_date_stable_witness:
  "detail (undated ''/a'') = None \<and> dateValue parseSample (undated ''/a'') = 0
   \<and> parseSample ''soon'' = None \<and> dateValue parseSample (dated ''/c'' ''soon'') = 0
   \<and> parseSample ''1970-01-02'' = Some 86400000
   \<and> dateValue parseSample (dated ''/e'' ''1970-01-02'') = 86400000
   \<and> dateValue parseSample (dated ''/b'' ''1969-12-31'') = - 86400000
   \<and> filteredSorted parseSample []
        [undated ''/a'', dated ''/b'' ''1969-12-31'', dated ''/c'' ''soon'',
         dated ''/e'' ''1970-01-02'', dated ''/d'' ''1969-12-31'']
      = [dated ''/e'' ''1970-01-02'', undated ''/a'', dated ''/c'' ''soon'',
         dated ''/b'' ''1969-12-31'', dated ''/d'' ''1969-12-31'']"
  using sort_by_date_stable [of parseSample "[]"
      "[undated ''/a'', dated ''/b'' ''1969-12-31'', dated ''/c'' ''soon'',
        dated ''/e'' ''1970-01-02'', dated ''/d'' ''1969-12-31'']"
      "undated ''/a''" "dated ''/e'' ''1970-01-02''"
      "\<lparr>title = ''T'', content = [], date = ''1970-01-02'',
        partner = \<lparr>name = [], url_partner = []\<rparr>\<rparr>" 86400000]
    sample_sorted
  by (simp add: undated_def dated_def parseSample_def dateValue_def detailDate_def byDate_def)

text \<open>
  The claim as it is written fails: zero is not the earliest date value. An item
  without a date is sorted in front of an item dated 1969-12-31, whose date value is
  negative.
\<close>

theorem sort_by_date_counterexample:
  "filteredSorted parseSample [] [undated ''/a'', dated ''/b'' ''1969-12-31'']
     = [undated ''/a'', dated ''/b'' ''1969-12-31'']
   \<and> dateValue parseSample (undated ''/a'') = 0
   \<and> dateValue parseSample (dated ''/b'' ''1969-12-31'') = - 86400000
   \<and> filteredSorted parseSample [] [dated ''/b'' ''1969-12-31'', undated ''/a'']
     = [undated ''/a'', dated ''/b'' ''1969-12-31'']"
  by (simp add: filteredSorted_def trim_def toLowerCase_def sortBy_def dateValue_def
      detailDate_def byDate_def parseSample_def undated_def dated_def)

section \<open>Paragraphs\<close>

lemma dropWhile_same_length: "length (dropWhile P xs) = length xs \<Longrightarrow> dropWhile P xs = xs"
  by (metis append_self_conv2 length_append add_cancel_right_left length_0_conv
      takeWhile_dropWhile_id)

lemma trim_fixed_ends:
  assumes "trim p = p" "p \<noteq> []"
  shows "\<not> isWhiteSpace (hd p) \<and> \<not> isWhiteSpace (last p)"
proof -
  let ?d = "dropWhile isWhiteSpace p"
  have "length p = length (dropWhile isWhiteSpace (rev ?d))"
    using assms(1) by (metis length_rev trim_def)
  also have "\<dots> \<le> length (rev ?d)" by (rule length_dropWhile_le)
  finally have le: "length p \<le> length ?d" by simp
  have "length ?d \<le> length p" by (rule length_dropWhile_le)
  with le have d: "?d = p" by (intro dropWhile_same_length) simp
  then have h: "\<not> isWhiteSpace (hd p)"
    using assms(2) by (simp add: dropWhile_eq_self_iff)
  from assms(1) d have "rev (dropWhile isWhiteSpace (rev p)) = p"
    by (simp add: trim_def)
  then have "dropWhile isWhiteSpace (rev p) = rev p"
    by (metis rev_rev_ident)
  then have "\<not> isWhiteSpace (hd (rev p))"
    using assms(2) by (simp add: dropWhile_eq_self_iff)
  with h show ?thesis using assms(2) by (simp add: hd_rev)
qed

lemma trim_idem: "trim (trim s) = trim s"
proof -
  let ?t = "dropWhile isWhiteSpace s"
  let ?u = "rev (dropWhile isWhiteSpace (rev ?t))"
  have u: "trim s = ?u" by (simp add: trim_def)
  have 1: "dropWhile isWhiteSpace ?u = ?u"
  proof (cases "?u = []")
    case True
    show ?thesis unfolding True by simp
  next
    case False
    then have t: "?t \<noteq> []"
      by (metis dropWhile.simps(1) rev.simps(1))
    then have nt: "\<not> isWhiteSpace (hd ?t)" by (rule hd_dropWhile)
    have "?t = ?u @ rev (takeWhile isWhiteSpace (rev ?t))"
      by (metis rev_append rev_rev_ident takeWhile_dropWhile_id)
    with False have "hd ?u = hd ?t" by (metis hd_append2)
    with nt show ?thesis by (simp add: dropWhile_eq_self_iff)
  qed
  have "trim ?u = rev (dropWhile isWhiteSpace (rev (dropWhile isWhiteSpace ?u)))"
    by (simp only: trim_def)
  also have "\<dots> = rev (dropWhile isWhiteSpace (rev ?u))" by (simp only: 1)
  also have "\<dots> = ?u" by simp
  finally show ?thesis by (simp only: u)
qed

lemma LF_white: "isWhiteSpace LF"
  by (simp add: isWhiteSpace_def LF_def)

lemma CR_white: "isWhiteSpace CR"
  by (simp add: isWhiteSpace_def CR_def)

lemma replaceCRLF_id: "\<not> hasPair CR LF s \<Longrightarrow> replaceCRLF s = s"
  by (induction s rule: replaceCRLF.induct) auto

lemma hasPair_append:
  "hasPair a b (xs @ ys) \<longleftrightarrow>
     hasPair a b xs \<or> hasPair a b ys \<or> (xs \<noteq> [] \<and> ys \<noteq> [] \<and> last xs = a \<and> hd ys = b)"
  apply (induction a b xs rule: hasPair.induct)
  subgoal by auto
  subgoal by simp
  subgoal by (cases ys) auto
  done

lemma split_nopair: "\<not> hasPair LF LF p \<Longrightarrow> splitBlankLines acc p = [rev acc @ p]"
proof (induction p arbitrary: acc)
  case Nil
  show ?case by simp
next
  case (Cons c cs)
  then show ?case by (cases cs) auto
qed

lemma split_sep:
  "\<not> hasPair LF LF p \<Longrightarrow> p \<noteq> [] \<Longrightarrow> last p \<noteq> LF \<Longrightarrow> rest = [] \<or> hd rest \<noteq> LF \<Longrightarrow>
   splitBlankLines acc (p @ LF # LF # rest) = (rev acc @ p) # splitBlankLines [] rest"
proof (induction p arbitrary: acc)
  case Nil
  then show ?case by simp
next
  case (Cons c cs)
  show ?case
  proof (cases cs)
    case Nil
    with Cons.prems show ?thesis by (cases rest) auto
  next
    case (Cons d ds)
    with Cons.prems Cons.IH [of "c # acc"] show ?thesis by auto
  qed
qed

lemma join_Cons: "ys \<noteq> [] \<Longrightarrow> join sep (x # ys) = x @ sep @ join sep ys"
  by (cases ys) simp_all

lemma hd_join: "x \<noteq> [] \<Longrightarrow> hd (join sep (x # xs)) = hd x"
  by (cases xs) simp_all

lemma join_nonempty: "x \<noteq> [] \<Longrightarrow> join sep (x # xs) \<noteq> []"
  by (cases xs) simp_all

lemma split_join:
  "ps \<noteq> [] \<Longrightarrow> \<forall>p \<in> set ps. isParagraph p \<Longrightarrow> splitBlankLines [] (join [LF, LF] ps) = ps"
proof (induction ps)
  case Nil
  then show ?case by simp
next
  case (Cons p ps)
  have p: "p \<noteq> []" "trim p = p" "\<not> hasPair LF LF p"
    using Cons.prems(2) by (simp_all add: isParagraph_def)
  show ?case
  proof (cases ps)
    case Nil
    with p show ?thesis by (simp add: split_nopair)
  next
    case (Cons q qs)
    have q: "q \<noteq> []" "trim q = q"
      using Cons.prems(2) Cons by (simp_all add: isParagraph_def)
    have lp: "last p \<noteq> LF"
      using trim_fixed_ends [OF p(2) p(1)] LF_white by auto
    have "hd (join [LF, LF] ps) = hd q"
      using q(1) Cons by (simp add: hd_join)
    then have hq: "hd (join [LF, LF] ps) \<noteq> LF"
      using trim_fixed_ends [OF q(2) q(1)] LF_white by auto
    have "splitBlankLines [] (p @ LF # LF # join [LF, LF] ps)
        = (rev [] @ p) # splitBlankLines [] (join [LF, LF] ps)"
      using p(3) p(1) lp hq by (intro split_sep) simp_all
    moreover have "splitBlankLines [] (join [LF, LF] ps) = ps"
      using Cons.IH Cons.prems(2) Cons by simp
    ultimately show ?thesis
      using Cons by (simp add: join_Cons)
  qed
qed

lemma nopair_join:
  "\<forall>p \<in> set ps. isParagraph p \<Longrightarrow> \<not> hasPair CR LF (join [LF, LF] ps)"
proof (induction ps)
  case Nil
  then show ?case by simp
next
  case (Cons p ps)
  have p: "p \<noteq> []" "trim p = p" "\<not> hasPair CR LF p"
    using Cons.prems by (simp_all add: isParagraph_def)
  show ?case
  proof (cases ps)
    case Nil
    with p show ?thesis by simp
  next
    case (Cons q qs)
    have lp: "last p \<noteq> CR"
      using trim_fixed_ends [OF p(2) p(1)] CR_white by auto
    have ih: "\<not> hasPair CR LF (join [LF, LF] ps)"
      using Cons.IH Cons.prems by simp
    have "\<not> hasPair CR LF (LF # LF # join [LF, LF] ps)"
      using ih by (cases "join [LF, LF] ps") (simp_all add: CR_def LF_def)
    then have "\<not> hasPair CR LF (p @ LF # LF # join [LF, LF] ps)"
      using p(3) lp by (simp add: hasPair_append)
    then show ?thesis using Cons by (simp add: join_Cons)
  qed
qed

lemma strings_of_JStr: "[s. JStr s \<leftarrow> map JStr ps] = ps"
  by (induction ps) simp_all

lemma keep_paragraphs:
  "\<forall>p \<in> set ps. isParagraph p \<Longrightarrow> filter (\<lambda>p. length p > 0) (map trim ps) = ps"
  by (induction ps) (simp_all add: isParagraph_def)

lemma contentPayload_join:
  assumes "ps \<noteq> []" "\<forall>p \<in> set ps. isParagraph p"
  shows "contentPayload (join [LF, LF] ps) = ps"
proof -
  have "replaceCRLF (join [LF, LF] ps) = join [LF, LF] ps"
    using nopair_join [OF assms(2)] by (rule replaceCRLF_id)
  moreover have "splitBlankLines [] (join [LF, LF] ps) = ps"
    using assms by (rule split_join)
  ultimately show ?thesis
    using assms(1) keep_paragraphs [OF assms(2)] by (simp add: contentPayload_def)
qed

lemma contentStr_paragraphs:
  "\<forall>p \<in> set ps. isParagraph p \<Longrightarrow> contentStr (JArr (map JStr ps)) = join [LF, LF] ps"
  unfolding contentStr_def
  by (simp only: json.case strings_of_JStr keep_paragraphs)

lemma contentStr_round_trip:
  "ps \<noteq> [] \<Longrightarrow> \<forall>p \<in> set ps. isParagraph p \<Longrightarrow>
   contentStr (JArr (map JStr (contentPayload (join [LF, LF] ps)))) = join [LF, LF] ps"
  by (simp add: contentPayload_join contentStr_paragraphs)

lemma editContent_is_content:
  "detail item = Some d \<Longrightarrow> editContent item = Some (content d)"
  by (simp add: editContent_def contentStr_def)

lemma contentPayload_trimmed: "p \<in> set (contentPayload s) \<Longrightarrow> trim p = p"
  by (auto simp: contentPayload_def Let_def trim_idem split: if_splits)

lemma contentPayload_nonempty: "contentPayload s \<noteq> []"
  by (simp add: contentPayload_def Let_def)


lemma trim_inside: "\<exists>a b. s = a @ trim s @ b"
proof -
  let ?t = "dropWhile isWhiteSpace s"
  have "s = takeWhile isWhiteSpace s @ ?t" by simp
  moreover have "?t = trim s @ rev (takeWhile isWhiteSpace (rev ?t))"
    unfolding trim_def by (metis rev_append rev_rev_ident takeWhile_dropWhile_id)
  ultimately show ?thesis by metis
qed

lemma trim_nopair: "\<not> hasPair a b s \<Longrightarrow> \<not> hasPair a b (trim s)"
proof -
  assume n: "\<not> hasPair a b s"
  obtain x y where "s = x @ trim s @ y" using trim_inside by blast
  with n have "\<not> hasPair a b (x @ trim s @ y)" by simp
  then show ?thesis by (simp add: hasPair_append)
qed

lemma pieces_nopair:
  "\<not> hasPair LF LF (rev acc) \<Longrightarrow> (acc \<noteq> [] \<and> hd acc = LF \<longrightarrow> s = [] \<or> hd s \<noteq> LF) \<Longrightarrow>
   p \<in> set (splitBlankLines acc s) \<Longrightarrow> \<not> hasPair LF LF p"
proof (induction acc s rule: splitBlankLines.induct)
  case (1 acc)
  then show ?case by simp
next
  case (2 acc c cs)
  show ?case
  proof (cases "c = LF \<and> cs \<noteq> [] \<and> hd cs = LF")
    case True
    with "2.prems" have "p = rev acc \<or> p \<in> set (splitBlankLines [] (dropWhile (\<lambda>x. x = LF) cs))"
      by simp
    then show ?thesis
    proof
      assume "p = rev acc"
      with "2.prems"(1) show ?thesis by simp
    next
      assume "p \<in> set (splitBlankLines [] (dropWhile (\<lambda>x. x = LF) cs))"
      with "2.IH"(1) [OF True] show ?thesis by simp
    qed
  next
    case False
    have a: "\<not> hasPair LF LF (rev (c # acc))"
      using "2.prems"(1,2) by (cases acc) (auto simp: hasPair_append last_rev)
    have b: "c # acc \<noteq> [] \<and> hd (c # acc) = LF \<longrightarrow> cs = [] \<or> hd cs \<noteq> LF"
      using False by auto
    have "p \<in> set (splitBlankLines (c # acc) cs)"
      using "2.prems"(3) False by auto
    with "2.IH"(2) [OF False a b] show ?thesis .
  qed
qed

lemma stored_nopair:
  "p \<in> set (filter (\<lambda>p. length p > 0) (map trim (splitBlankLines [] s))) \<Longrightarrow>
   p \<noteq> [] \<and> trim p = p \<and> \<not> hasPair LF LF p"
proof -
  assume "p \<in> set (filter (\<lambda>p. length p > 0) (map trim (splitBlankLines [] s)))"
  then obtain q where q: "q \<in> set (splitBlankLines [] s)" "p = trim q" "p \<noteq> []"
    by auto
  have "\<not> hasPair LF LF q"
    using q(1) by (intro pieces_nopair [of "[]" s q]) simp_all
  then show ?thesis
    using q(2,3) by (simp add: trim_idem trim_nopair)
qed









end
